theory Spec2Isabelle
  imports Complex_Main
begin

section \<open>Data model of \<^verbatim>\<open>libcpab/core/tesselation.py\<close>\<close>

text \<open>
  The module builds, for a box domain of dimension 1, 2 or 3, a table of simplices and a
  constraint matrix \<open>L\<close>. Python exceptions are values of type \<open>error\<close>; every function
  that can raise returns \<open>error + 'a\<close> with \<open>Inl\<close> for the exception.

  Coordinates are \<open>float64\<close> in the source. They are modelled as exact rationals: every
  statement below is about shapes, index arithmetic and equality of breakpoints taken
  from the same \<open>linspace\<close> array, and is read with exact arithmetic in place of rounding.
  Python integers are \<open>int\<close>; loop counters produced by \<open>range\<close> are \<open>nat\<close>.
\<close>

datatype error = IndexError | ValueError | ZeroDivisionError | NotImplementedError

type_synonym vertex = "rat list"
type_synonym simplex = "vertex list"

text \<open>A two-dimensional numpy array: its column count is kept beside the rows, because
  an array of shape \<open>(0, n)\<close> still has \<open>n\<close> columns.\<close>

record ndarray =
  ncols :: nat
  rows :: "rat list list"

fun ebind :: "error + 'a \<Rightarrow> ('a \<Rightarrow> error + 'b) \<Rightarrow> error + 'b" where
  "ebind (Inl e) f = Inl e"
| "ebind (Inr x) f = f x"

text \<open>A \<open>for\<close> loop over a list that updates a state and stops at the first exception.\<close>

fun foldM :: "('s \<Rightarrow> 'a \<Rightarrow> error + 's) \<Rightarrow> 's \<Rightarrow> 'a list \<Rightarrow> error + 's" where
  "foldM f s [] = Inr s"
| "foldM f s (x # xs) = (case f s x of Inl e \<Rightarrow> Inl e | Inr s' \<Rightarrow> foldM f s' xs)"

fun mapM :: "('a \<Rightarrow> error + 'b) \<Rightarrow> 'a list \<Rightarrow> error + 'b list" where
  "mapM f [] = Inr []"
| "mapM f (x # xs) =
     (case f x of Inl e \<Rightarrow> Inl e
      | Inr y \<Rightarrow> (case mapM f xs of Inl e \<Rightarrow> Inl e | Inr ys \<Rightarrow> Inr (y # ys)))"

text \<open>\<open>range(n)\<close> for a Python integer \<open>n\<close>: empty when \<open>n \<le> 0\<close>.\<close>

definition range :: "int \<Rightarrow> nat list" where
  "range n = [0..<nat n]"

text \<open>\<open>xs[i]\<close> for a non-negative index.\<close>

definition getitem :: "'a list \<Rightarrow> nat \<Rightarrow> error + 'a" where
  "getitem xs i = (if i < length xs then Inr (xs ! i) else Inl IndexError)"

subsection \<open>numpy primitives\<close>

text \<open>\<open>np.zeros((r, c))\<close>: negative dimensions are a \<open>ValueError\<close>.\<close>

definition zeros :: "int \<Rightarrow> int \<Rightarrow> error + ndarray" where
  "zeros r c = (if r < 0 \<or> c < 0 then Inl ValueError
                else Inr \<lparr>ncols = nat c, rows = replicate (nat r) (replicate (nat c) 0)\<rparr>)"

text \<open>\<open>np.linspace(start, stop, num)\<close>: \<open>num\<close> samples \<open>start + i * (stop - start) / (num - 1)\<close>;
  a single sample is \<open>start\<close> (the step is not used then), a negative \<open>num\<close> is a
  \<open>ValueError\<close>.\<close>

definition linspace :: "rat \<Rightarrow> rat \<Rightarrow> int \<Rightarrow> error + rat list" where
  "linspace start stop num =
     (if num < 0 then Inl ValueError
      else Inr (map (\<lambda>i. start + of_nat i * ((stop - start) / of_int (num - 1)))
                  [0..<nat num]))"

text \<open>The half-open index range a Python slice \<open>a:b\<close> selects in a sequence of length
  \<open>n\<close>: negative bounds count from the end, and both bounds are clipped.\<close>

definition slice_bounds :: "int \<Rightarrow> int \<Rightarrow> nat \<Rightarrow> nat \<times> nat" where
  "slice_bounds a b n =
     (let lo = nat (if a < 0 then max 0 (int n + a) else min a (int n));
          hi = nat (if b < 0 then max 0 (int n + b) else min b (int n))
      in (lo, max lo hi))"

text \<open>\<open>row[a:b] = vals\<close> on a one-dimensional array: the values must have the length of
  the slice, or length 1 (broadcast); anything else is numpy's broadcast \<open>ValueError\<close>.\<close>

definition set_slice :: "rat list \<Rightarrow> int \<Rightarrow> int \<Rightarrow> rat list \<Rightarrow> error + rat list" where
  "set_slice row a b vals =
     (case slice_bounds a b (length row) of (lo, hi) \<Rightarrow>
        if length vals = hi - lo then Inr (take lo row @ vals @ drop hi row)
        else if length vals = 1 then Inr (take lo row @ replicate (hi - lo) (hd vals) @ drop hi row)
        else Inl ValueError)"

text \<open>\<open>A[r, a:b] = vals\<close> on a two-dimensional array.\<close>

definition row_assign :: "ndarray \<Rightarrow> nat \<Rightarrow> int \<Rightarrow> int \<Rightarrow> rat list \<Rightarrow> error + ndarray" where
  "row_assign A r a b vals =
     (if r < length (rows A)
      then (case set_slice (rows A ! r) a b vals of
              Inl e \<Rightarrow> Inl e
            | Inr row \<Rightarrow> Inr (A\<lparr>rows := (rows A)[r := row]\<rparr>))
      else Inl IndexError)"

text \<open>\<open>np.concatenate((A, B), axis=0)\<close> and \<open>np.vstack\<close>: the column counts must agree.\<close>

definition concatenate :: "ndarray \<Rightarrow> ndarray \<Rightarrow> error + ndarray" where
  "concatenate A B =
     (if ncols A = ncols B then Inr \<lparr>ncols = ncols A, rows = rows A @ rows B\<rparr>
      else Inl ValueError)"

text \<open>\<open>set(vi).intersection(vj)\<close>, listed. Python leaves the iteration order of a set
  open; the shared vertices are listed here in the order of \<open>vi\<close>. Its length is the
  number of distinct shared vertices whatever the order.\<close>

definition intersection :: "simplex \<Rightarrow> simplex \<Rightarrow> vertex list" where
  "intersection vi vj = remdups (filter (\<lambda>v. v \<in> set vj) vi)"

subsection \<open>The base class\<close>

record 'c tesselation =
  nc :: "int list"
  domain_min :: "rat list"
  domain_max :: "rat list"
  zero_boundary :: bool
  volume_perservation :: bool
  n_params :: int
  nC :: int
  ndim :: nat
  verts :: "simplex list"
  cells :: "'c list"
  shared_v :: "vertex list list"
  shared_v_idx :: "(nat \<times> nat) list"
  L :: ndarray

text \<open>One iteration of the double loop of \<open>find_shared_verts\<close>.\<close>

definition shared_step ::
  "simplex list \<Rightarrow> nat \<Rightarrow> vertex list list \<times> (nat \<times> nat) list \<Rightarrow> nat \<times> nat
     \<Rightarrow> error + vertex list list \<times> (nat \<times> nat) list" where
  "shared_step vs nd st p =
     (case st of (sv, idx) \<Rightarrow> case p of (i, j) \<Rightarrow>
        ebind (getitem vs i) (\<lambda>vi. ebind (getitem vs j) (\<lambda>vj.
          let shared_verts = intersection vi vj in
          if length shared_verts = nd \<and> (j, i) \<notin> set idx
          then Inr (sv @ [shared_verts], idx @ [(i, j)])
          else Inr (sv, idx))))"

definition find_shared_verts ::
  "simplex list \<Rightarrow> int \<Rightarrow> nat \<Rightarrow> error + vertex list list \<times> (nat \<times> nat) list" where
  "find_shared_verts vs n nd =
     foldM (shared_step vs nd) ([], []) (List.product (range n) (range n))"

text \<open>The rows of \<open>create_zero_trace_constrains\<close>: \<open>np.eye(ndim)\<close> with a zero column
  appended, flattened, written into the block of each simplex.\<close>

definition trace_row :: "nat \<Rightarrow> rat list" where
  "trace_row nd =
     concat (map (\<lambda>r. map (\<lambda>c. if r = c then 1 else 0) [0..<nd] @ [0]) [0..<nd])"

definition create_zero_trace_constrains :: "int \<Rightarrow> int \<Rightarrow> nat \<Rightarrow> error + ndarray" where
  "create_zero_trace_constrains n np nd =
     ebind (zeros n (np * n)) (\<lambda>Ltemp.
       foldM (\<lambda>A c. row_assign A c (np * int c) (np * (int c + 1)) (trace_row nd))
         Ltemp (range n))"

text \<open>\<open>Tesselation.__init__\<close>. The four operations a subclass implements are parameters;
  \<open>np\<close>, \<open>n\<close> and \<open>nd\<close> are the \<open>n_params\<close>, \<open>nC\<close> and \<open>ndim\<close> the subclass sets before
  it calls the base constructor.\<close>

definition init ::
  "(error + simplex list \<times> 'c list)
   \<Rightarrow> (simplex list \<Rightarrow> 'c list \<Rightarrow> vertex list list \<times> (nat \<times> nat) list
        \<Rightarrow> error + vertex list list \<times> (nat \<times> nat) list)
   \<Rightarrow> (simplex list \<Rightarrow> vertex list list \<times> (nat \<times> nat) list \<Rightarrow> error + ndarray)
   \<Rightarrow> (simplex list \<Rightarrow> error + ndarray)
   \<Rightarrow> int \<Rightarrow> int \<Rightarrow> nat
   \<Rightarrow> int list \<Rightarrow> rat list \<Rightarrow> rat list \<Rightarrow> bool \<Rightarrow> bool \<Rightarrow> error + 'c tesselation" where
  "init find_verts find_verts_outside create_continuity_constrains
        create_zero_boundary_constrains np n nd ncs dmin dmax zb vp =
     ebind find_verts (\<lambda>(vs, cs).
     ebind (find_shared_verts vs n nd) (\<lambda>sh.
     ebind (if \<not> zb then find_verts_outside vs cs sh else Inr sh) (\<lambda>sh'.
     ebind (create_continuity_constrains vs sh') (\<lambda>L0.
     ebind (if zb then ebind (create_zero_boundary_constrains vs) (concatenate L0)
            else Inr L0) (\<lambda>L1.
     ebind (if vp then ebind (create_zero_trace_constrains n np nd) (concatenate L1)
            else Inr L1) (\<lambda>L2.
       Inr \<lparr>nc = ncs, domain_min = dmin, domain_max = dmax, zero_boundary = zb,
            volume_perservation = vp, n_params = np, nC = n, ndim = nd,
            verts = vs, cells = cs, shared_v = fst sh', shared_v_idx = snd sh',
            L = L2\<rparr>))))))"

subsection \<open>\<open>Tesselation1D\<close>\<close>

definition find_verts1 :: "int list \<Rightarrow> rat list \<Rightarrow> rat list \<Rightarrow> error + simplex list \<times> nat list" where
  "find_verts1 ncs dmin dmax =
     ebind (getitem dmin 0) (\<lambda>a. ebind (getitem dmax 0) (\<lambda>b. ebind (getitem ncs 0) (\<lambda>n0.
     ebind (linspace a b (n0 + 1)) (\<lambda>Vx.
     ebind (mapM (\<lambda>i. ebind (getitem Vx i) (\<lambda>x1. ebind (getitem Vx (i + 1)) (\<lambda>x2.
                    Inr [[x1, 1], [x2, 1]]))) (range n0)) (\<lambda>vs.
       Inr (vs, range n0))))))"

text \<open>\<open>pass\<close>: in 1D no auxiliary vertices are made.\<close>

definition find_verts_outside1 ::
  "simplex list \<Rightarrow> nat list \<Rightarrow> vertex list list \<times> (nat \<times> nat) list
     \<Rightarrow> error + vertex list list \<times> (nat \<times> nat) list" where
  "find_verts_outside1 vs cs sh = Inr sh"

definition create_continuity_constrains1 ::
  "int \<Rightarrow> simplex list \<Rightarrow> vertex list list \<times> (nat \<times> nat) list \<Rightarrow> error + ndarray" where
  "create_continuity_constrains1 n vs sh =
     ebind (zeros (n - 1) (2 * n)) (\<lambda>Ltemp.
       foldM (\<lambda>A (idx, v). ebind (getitem v 0) (\<lambda>v0.
                row_assign A idx (2 * int idx) (2 * (int idx + 2)) (v0 @ map uminus v0)))
         Ltemp (enumerate 0 (fst sh)))"

definition create_zero_boundary_constrains1 ::
  "int \<Rightarrow> rat list \<Rightarrow> rat list \<Rightarrow> simplex list \<Rightarrow> error + ndarray" where
  "create_zero_boundary_constrains1 n dmin dmax vs =
     ebind (zeros 2 (2 * n)) (\<lambda>Ltemp.
     ebind (getitem dmin 0) (\<lambda>a.
     ebind (row_assign Ltemp 0 0 2 [a, 1]) (\<lambda>Ltemp.
     ebind (getitem dmax 0) (\<lambda>b.
       row_assign Ltemp 1 (- 2) (int (ncols Ltemp)) [b, 1]))))"

definition Tesselation1D ::
  "int list \<Rightarrow> rat list \<Rightarrow> rat list \<Rightarrow> bool \<Rightarrow> bool \<Rightarrow> error + nat tesselation" where
  "Tesselation1D ncs dmin dmax zb vp =
     (let n = prod_list ncs in
      init (find_verts1 ncs dmin dmax) find_verts_outside1
           (create_continuity_constrains1 n)
           (create_zero_boundary_constrains1 n dmin dmax)
           2 n 1 ncs dmin dmax zb vp)"

subsection \<open>\<open>Tesselation2D\<close>\<close>

text \<open>The four triangles of the cell in row \<open>i\<close>, column \<open>j\<close>, fanned from its centre.\<close>

definition cell_verts2 :: "rat list \<Rightarrow> rat list \<Rightarrow> nat \<times> nat \<Rightarrow> error + simplex list" where
  "cell_verts2 Vx Vy p =
     (case p of (i, j) \<Rightarrow>
        ebind (getitem Vx j) (\<lambda>x0. ebind (getitem Vy i) (\<lambda>y0.
        ebind (getitem Vx (j + 1)) (\<lambda>x1. ebind (getitem Vy (i + 1)) (\<lambda>y1.
          let ul = [x0, y0, 1]; ur = [x1, y0, 1]; ll = [x0, y1, 1]; lr = [x1, y1, 1];
              center = [(x0 + x1) / 2, (y0 + y1) / 2, 1]
          in Inr [[center, ul, ur], [center, ur, lr], [center, lr, ll], [center, ll, ul]])))))"

definition cell_index2 :: "nat \<times> nat \<Rightarrow> (nat \<times> nat \<times> nat) list" where
  "cell_index2 p = (case p of (i, j) \<Rightarrow> [(j, i, 0), (j, i, 1), (j, i, 2), (j, i, 3)])"

definition find_verts2 ::
  "int list \<Rightarrow> rat list \<Rightarrow> rat list \<Rightarrow> error + simplex list \<times> (nat \<times> nat \<times> nat) list" where
  "find_verts2 ncs dmin dmax =
     ebind (getitem dmin 0) (\<lambda>a0. ebind (getitem dmax 0) (\<lambda>b0. ebind (getitem ncs 0) (\<lambda>n0.
     ebind (linspace a0 b0 (n0 + 1)) (\<lambda>Vx.
     ebind (getitem dmin 1) (\<lambda>a1. ebind (getitem dmax 1) (\<lambda>b1. ebind (getitem ncs 1) (\<lambda>n1.
     ebind (linspace a1 b1 (n1 + 1)) (\<lambda>Vy.
     ebind (mapM (cell_verts2 Vx Vy) (List.product (range n1) (range n0))) (\<lambda>vss.
       Inr (concat vss,
            concat (map cell_index2 (List.product (range n1) (range n0)))))))))))))"












text \<open>The rows one vertex of simplex \<open>c\<close> contributes to the zero-boundary block.\<close>

definition boundary_rows2 ::
  "int \<Rightarrow> rat \<Rightarrow> rat \<Rightarrow> rat \<Rightarrow> rat \<Rightarrow> nat \<times> vertex \<Rightarrow> error + rat list list" where
  "boundary_rows2 n xmin ymin xmax ymax p =
     (case p of (c, v) \<Rightarrow>
        ebind (getitem v 0) (\<lambda>v0.
        ebind (if v0 = xmin \<or> v0 = xmax
               then ebind (zeros 1 (6 * n)) (\<lambda>z.
                    ebind (set_slice (hd (rows z)) (6 * int c) (6 * (int c + 1)) ([0, 0, 0] @ v))
                      (\<lambda>row. Inr [row]))
               else Inr []) (\<lambda>r1.
        ebind (getitem v 1) (\<lambda>v1.
        ebind (if v1 = ymin \<or> v1 = ymax
               then ebind (zeros 1 (6 * n)) (\<lambda>z.
                    ebind (set_slice (hd (rows z)) (6 * int c) (6 * (int c + 1)) (v @ [0, 0, 0]))
                      (\<lambda>row. Inr [row]))
               else Inr []) (\<lambda>r2. Inr (r1 @ r2))))))"

definition simplex_boundary_rows2 ::
  "int \<Rightarrow> rat \<Rightarrow> rat \<Rightarrow> rat \<Rightarrow> rat \<Rightarrow> simplex list \<Rightarrow> nat \<Rightarrow> error + rat list list" where
  "simplex_boundary_rows2 n xmin ymin xmax ymax vs c =
     ebind (getitem vs c) (\<lambda>s.
     ebind (mapM (boundary_rows2 n xmin ymin xmax ymax) (map (Pair c) s)) (\<lambda>rs.
       Inr (concat rs)))"

definition create_zero_boundary_constrains2 ::
  "int \<Rightarrow> rat list \<Rightarrow> rat list \<Rightarrow> simplex list \<Rightarrow> error + ndarray" where
  "create_zero_boundary_constrains2 n dmin dmax vs =
     (case dmin of [xmin, ymin] \<Rightarrow>
        (case dmax of [xmax, ymax] \<Rightarrow>
           ebind (zeros 0 (6 * n)) (\<lambda>Ltemp.
           ebind (mapM (simplex_boundary_rows2 n xmin ymin xmax ymax vs) (range n)) (\<lambda>rs.
             Inr (Ltemp\<lparr>rows := concat rs\<rparr>)))
         | _ \<Rightarrow> Inl ValueError)
      | _ \<Rightarrow> Inl ValueError)"


subsection \<open>\<open>Tesselation3D\<close>\<close>

text \<open>The six five-vertex cells of the box with depth index \<open>i\<close>, row \<open>j\<close> and column
  \<open>k\<close>: the centre and four corners each, in the order the source appends them.\<close>

definition cell_verts3 ::
  "rat list \<Rightarrow> rat list \<Rightarrow> rat list \<Rightarrow> nat \<times> nat \<times> nat \<Rightarrow> error + simplex list" where
  "cell_verts3 Vx Vy Vz p =
     (case p of (i, j, k) \<Rightarrow>
        ebind (getitem Vx k) (\<lambda>x0. ebind (getitem Vx (k + 1)) (\<lambda>x1.
        ebind (getitem Vy j) (\<lambda>y0. ebind (getitem Vy (j + 1)) (\<lambda>y1.
        ebind (getitem Vz i) (\<lambda>z0. ebind (getitem Vz (i + 1)) (\<lambda>z1.
          let cnt = [(x0 + x1) / 2, (y0 + y1) / 2, (z0 + z1) / 2, 1];
              lnl = [x0, y0, z0, 1]; lnu = [x0, y0, z1, 1];
              lfl = [x0, y1, z0, 1]; lfu = [x0, y1, z1, 1];
              rnl = [x1, y0, z0, 1]; rnu = [x1, y0, z1, 1];
              rfl = [x1, y1, z0, 1]; rfu = [x1, y1, z1, 1]
          in Inr [[cnt, lnl, lnu, lfl, lfu], [cnt, lnl, lnu, rnl, rnu],
                  [cnt, lnl, lfl, rnl, rnu], [cnt, rnl, rnu, rfl, rfu],
                  [cnt, lfl, lfu, rfl, rfu], [cnt, lnu, lfu, rnu, rfu]])))))))"

definition cell_index3 :: "nat \<times> nat \<times> nat \<Rightarrow> (nat \<times> nat \<times> nat \<times> nat) list" where
  "cell_index3 p =
     (case p of (i, j, k) \<Rightarrow>
        [(k, j, i, 0), (k, j, i, 1), (k, j, i, 2), (k, j, i, 3), (k, j, i, 4), (k, j, i, 5)])"

text \<open>The loop nest of \<open>find_verts\<close>: \<open>i\<close> outermost, then \<open>j\<close>, then \<open>k\<close>.\<close>

definition boxes3 :: "int \<Rightarrow> int \<Rightarrow> int \<Rightarrow> (nat \<times> nat \<times> nat) list" where
  "boxes3 n0 n1 n2 = List.product (range n2) (List.product (range n1) (range n0))"

text \<open>\<open>Vz\<close> is computed, as in the source, from the entries of index 1 of \<open>domain_min\<close>,
  \<open>domain_max\<close> and \<open>nc\<close>.\<close>

definition find_verts3 ::
  "int list \<Rightarrow> rat list \<Rightarrow> rat list
     \<Rightarrow> error + simplex list \<times> (nat \<times> nat \<times> nat \<times> nat) list" where
  "find_verts3 ncs dmin dmax =
     ebind (getitem dmin 0) (\<lambda>a0. ebind (getitem dmax 0) (\<lambda>b0. ebind (getitem ncs 0) (\<lambda>n0.
     ebind (linspace a0 b0 (n0 + 1)) (\<lambda>Vx.
     ebind (getitem dmin 1) (\<lambda>a1. ebind (getitem dmax 1) (\<lambda>b1. ebind (getitem ncs 1) (\<lambda>n1.
     ebind (linspace a1 b1 (n1 + 1)) (\<lambda>Vy.
     ebind (linspace a1 b1 (n1 + 1)) (\<lambda>Vz.
     ebind (getitem ncs 2) (\<lambda>n2.
     ebind (mapM (cell_verts3 Vx Vy Vz) (boxes3 n0 n1 n2)) (\<lambda>vss.
       Inr (concat vss, concat (map cell_index3 (boxes3 n0 n1 n2))))))))))))))"

definition find_verts_outside3 ::
  "simplex list \<Rightarrow> (nat \<times> nat \<times> nat \<times> nat) list \<Rightarrow> vertex list list \<times> (nat \<times> nat) list
     \<Rightarrow> error + vertex list list \<times> (nat \<times> nat) list" where
  "find_verts_outside3 vs cs sh = Inl NotImplementedError"

text \<open>The row of the shared vertex \<open>vidx\<close> of adjacency \<open>idx = (i, j)\<close> for output
  dimension \<open>k\<close>.\<close>

definition continuity_row3 ::
  "int \<Rightarrow> int \<Rightarrow> nat \<Rightarrow> vertex list list \<Rightarrow> (nat \<times> nat \<times> nat) \<times> nat \<times> nat
     \<Rightarrow> error + rat list" where
  "continuity_row3 n np nd sv p =
     (case p of ((idx, i, j), vidx, k) \<Rightarrow>
        let index1 = np * int i + int k * (int nd + 1);
            index2 = np * int j + int k * (int nd + 1) in
        ebind (zeros 1 (np * n)) (\<lambda>z.
        ebind (getitem sv idx) (\<lambda>V. ebind (getitem V vidx) (\<lambda>v.
        ebind (set_slice (hd (rows z)) index1 (index1 + (int nd + 1)) v) (\<lambda>row.
          set_slice row index2 (index2 + (int nd + 1)) (map uminus v))))))"

definition create_continuity_constrains3 ::
  "int \<Rightarrow> int \<Rightarrow> nat \<Rightarrow> simplex list \<Rightarrow> vertex list list \<times> (nat \<times> nat) list
     \<Rightarrow> error + ndarray" where
  "create_continuity_constrains3 n np nd vs sh =
     ebind (zeros 0 (np * n)) (\<lambda>Ltemp.
     ebind (mapM (continuity_row3 n np nd (fst sh))
              (List.product (enumerate 0 (snd sh)) (List.product [0..<nd] [0..<nd])))
       (\<lambda>rs. Inr (Ltemp\<lparr>rows := rs\<rparr>)))"

text \<open>Python's \<open>/\<close> on two integers.\<close>

definition truediv :: "int \<Rightarrow> int \<Rightarrow> error + rat" where
  "truediv a b = (if b = 0 then Inl ZeroDivisionError else Inr (of_int a / of_int b))"

text \<open>The body shared by the three loop nests of the 3D \<open>create_zero_boundary_constrains\<close>:
  the three quotients of \<open>vrt\<close>, then the assignment of \<open>vrt + onehot\<close> (six numbers) to the
  twelve columns of cell \<open>c_idx\<close> in row \<open>sr\<close>.\<close>

definition boundary_assign3 ::
  "ndarray \<times> nat \<Rightarrow> int \<Rightarrow> (int \<times> int) \<Rightarrow> (int \<times> int) \<Rightarrow> (int \<times> int) \<Rightarrow> rat list
     \<Rightarrow> error + ndarray \<times> nat" where
  "boundary_assign3 st c_idx q0 q1 q2 onehot =
     (case st of (Ltemp, sr) \<Rightarrow>
        ebind (truediv (fst q0) (snd q0)) (\<lambda>r0.
        ebind (truediv (fst q1) (snd q1)) (\<lambda>r1.
        ebind (truediv (fst q2) (snd q2)) (\<lambda>r2.
        ebind (row_assign Ltemp sr (c_idx * 12) ((c_idx + 1) * 12) ([r0, r1, r2] @ onehot))
          (\<lambda>Ltemp'. Inr (Ltemp', sr + 1))))))"

definition xy_step :: "int \<Rightarrow> int \<Rightarrow> int \<Rightarrow> ndarray \<times> nat \<Rightarrow> int \<times> nat \<times> nat \<Rightarrow> error + ndarray \<times> nat" where
  "xy_step nx ny nz st p =
     (case p of (i, j, k) \<Rightarrow>
        let c_idx = 6 * (nx * ny * i + nx * min (int j) (ny - 1) + min (int k) (nx - 1));
            c_idx = c_idx + (if i = 0 then 2 else 3)
        in boundary_assign3 st c_idx (int k, nx) (int j, ny) (i, nz - 1) [0, 0, 1])"

definition xz_step :: "int \<Rightarrow> int \<Rightarrow> int \<Rightarrow> ndarray \<times> nat \<Rightarrow> int \<times> nat \<times> nat \<Rightarrow> error + ndarray \<times> nat" where
  "xz_step nx ny nz st p =
     (case p of (j, i, k) \<Rightarrow>
        let c_idx = 6 * (nx * ny * min (int i) (nz - 1) + nx * j + min (int k) (nx - 1));
            c_idx = c_idx + (if j = 0 then 1 else 4)
        in boundary_assign3 st c_idx (int k, nx) (j, ny - 1) (int i, nz) [0, 1, 0])"

definition yz_step :: "int \<Rightarrow> int \<Rightarrow> int \<Rightarrow> ndarray \<times> nat \<Rightarrow> int \<times> nat \<times> nat \<Rightarrow> error + ndarray \<times> nat" where
  "yz_step nx ny nz st p =
     (case p of (k, i, j) \<Rightarrow>
        let c_idx = 6 * (nx * ny * min (int i) (nz - 1) + nx * min (int j) (ny - 1) + k);
            c_idx = c_idx + (if k = 0 then 0 else 5)
        in boundary_assign3 st c_idx (k, nx - 1) (int j, ny) (int i, nz) [1, 0, 0])"

definition create_zero_boundary_constrains3 ::
  "int list \<Rightarrow> int \<Rightarrow> simplex list \<Rightarrow> error + ndarray" where
  "create_zero_boundary_constrains3 ncs n vs =
     (case ncs of [nx, ny, nz] \<Rightarrow>
        ebind (zeros (2 * ((nx + 1) * (ny + 1) + (nx + 1) * (nz + 1) + (ny + 1) * (nz + 1)))
                 (12 * n)) (\<lambda>Ltemp.
        ebind (foldM (xy_step nx ny nz) (Ltemp, 0)
                 (List.product [0, nz - 1] (List.product (range (ny + 1)) (range (nx + 1)))))
          (\<lambda>st.
        ebind (foldM (xz_step nx ny nz) st
                 (List.product [0, ny - 1] (List.product (range (nz + 1)) (range (nx + 1)))))
          (\<lambda>st.
        ebind (foldM (yz_step nx ny nz) st
                 (List.product [0, nx - 1] (List.product (range (nz + 1)) (range (ny + 1)))))
          (\<lambda>st. Inr (fst st)))))
      | _ \<Rightarrow> Inl ValueError)"

definition Tesselation3D ::
  "int list \<Rightarrow> rat list \<Rightarrow> rat list \<Rightarrow> bool \<Rightarrow> bool
     \<Rightarrow> error + (nat \<times> nat \<times> nat \<times> nat) tesselation" where
  "Tesselation3D ncs dmin dmax zb vp =
     (let n = 6 * prod_list ncs in
      init (find_verts3 ncs dmin dmax) find_verts_outside3
           (create_continuity_constrains3 n 12 3)
           (create_zero_boundary_constrains3 ncs n)
           12 n 3 ncs dmin dmax zb vp)"

section \<open>Definitions used in the statements and proofs\<close>

text \<open>The double loop that records a pair unless its mirror image is already there.\<close>

definition recorded :: "(nat \<Rightarrow> nat \<Rightarrow> bool) \<Rightarrow> nat \<Rightarrow> nat \<Rightarrow> (nat \<times> nat) list" where
  "recorded P m n = filter (\<lambda>(i, j). i \<le> j \<and> P i j) (List.product [0..<m] [0..<n])"

text \<open>Breakpoints of linspace.\<close>

definition breakpoint :: "rat \<Rightarrow> rat \<Rightarrow> int \<Rightarrow> nat \<Rightarrow> rat" where
  "breakpoint a b n i = a + of_nat i * ((b - a) / of_int n)"


text \<open>A row of zeros of width \<open>W\<close> with \<open>vals\<close> written at column \<open>lo\<close>.\<close>

definition placed :: "nat \<Rightarrow> nat \<Rightarrow> rat list \<Rightarrow> rat list" where
  "placed W lo vals = replicate lo 0 @ vals @ replicate (W - lo - length vals) 0"


definition continuity_row :: "nat \<Rightarrow> nat \<Rightarrow> nat \<Rightarrow> vertex \<Rightarrow> rat list" where
  "continuity_row W oi oj v =
     map (\<lambda>c. if oi \<le> c \<and> c < oi + length v then v ! (c - oi)
               else if oj \<le> c \<and> c < oj + length v then - (v ! (c - oj))
               else 0) [0..<W]"




text \<open>The six cells of a 3D box, and the box of depth \<open>i\<close>, row \<open>j\<close> and column \<open>k\<close> of a
  grid whose \<open>z\<close> breakpoints are those of the \<open>y\<close> axis.\<close>

definition pyramids :: "rat \<Rightarrow> rat \<Rightarrow> rat \<Rightarrow> rat \<Rightarrow> rat \<Rightarrow> rat \<Rightarrow> simplex list" where
  "pyramids x0 x1 y0 y1 z0 z1 =
     [[[(x0 + x1) / 2, (y0 + y1) / 2, (z0 + z1) / 2, 1],
       [x0, y0, z0, 1], [x0, y0, z1, 1], [x0, y1, z0, 1], [x0, y1, z1, 1]],
      [[(x0 + x1) / 2, (y0 + y1) / 2, (z0 + z1) / 2, 1],
       [x0, y0, z0, 1], [x0, y0, z1, 1], [x1, y0, z0, 1], [x1, y0, z1, 1]],
      [[(x0 + x1) / 2, (y0 + y1) / 2, (z0 + z1) / 2, 1],
       [x0, y0, z0, 1], [x0, y1, z0, 1], [x1, y0, z0, 1], [x1, y0, z1, 1]],
      [[(x0 + x1) / 2, (y0 + y1) / 2, (z0 + z1) / 2, 1],
       [x1, y0, z0, 1], [x1, y0, z1, 1], [x1, y1, z0, 1], [x1, y1, z1, 1]],
      [[(x0 + x1) / 2, (y0 + y1) / 2, (z0 + z1) / 2, 1],
       [x0, y1, z0, 1], [x0, y1, z1, 1], [x1, y1, z0, 1], [x1, y1, z1, 1]],
      [[(x0 + x1) / 2, (y0 + y1) / 2, (z0 + z1) / 2, 1],
       [x0, y0, z1, 1], [x0, y1, z1, 1], [x1, y0, z1, 1], [x1, y1, z1, 1]]]"

definition grid_cell3 ::
  "rat \<Rightarrow> rat \<Rightarrow> int \<Rightarrow> rat \<Rightarrow> rat \<Rightarrow> int \<Rightarrow> nat \<times> nat \<times> nat \<Rightarrow> simplex list" where
  "grid_cell3 a0 b0 n0 a1 b1 n1 p =
     (case p of (i, j, k) \<Rightarrow>
        pyramids (breakpoint a0 b0 n0 k) (breakpoint a0 b0 n0 (Suc k))
                 (breakpoint a1 b1 n1 j) (breakpoint a1 b1 n1 (Suc j))
                 (breakpoint a1 b1 n1 i) (breakpoint a1 b1 n1 (Suc i)))"


text \<open>Two triangles on the same outer edge of the grid, in cells next to each other along
  it, as the specification words it: both in the leftmost column with sub-triangle 3, or
  both in the rightmost column with sub-triangle 1, rows differing by one; or both in the
  top row with sub-triangle 0, or both in the bottom row with sub-triangle 2, columns
  differing by one.\<close>

abbreviation same_outer_edge ::
  "int \<Rightarrow> int \<Rightarrow> nat \<times> nat \<times> nat \<Rightarrow> nat \<times> nat \<times> nat \<Rightarrow> bool" where
  "same_outer_edge n0 n1 mi mj \<equiv>
     (fst mi = 0 \<and> fst mj = 0 \<and> snd (snd mi) = 3 \<and> snd (snd mj) = 3
        \<and> \<bar>int (fst (snd mi)) - int (fst (snd mj))\<bar> = 1)
     \<or> (int (fst mi) = n0 - 1 \<and> int (fst mj) = n0 - 1 \<and> snd (snd mi) = 1 \<and> snd (snd mj) = 1
        \<and> \<bar>int (fst (snd mi)) - int (fst (snd mj))\<bar> = 1)
     \<or> (fst (snd mi) = 0 \<and> fst (snd mj) = 0 \<and> snd (snd mi) = 0 \<and> snd (snd mj) = 0
        \<and> \<bar>int (fst mi) - int (fst mj)\<bar> = 1)
     \<or> (int (fst (snd mi)) = n1 - 1 \<and> int (fst (snd mj)) = n1 - 1
        \<and> snd (snd mi) = 2 \<and> snd (snd mj) = 2
        \<and> \<bar>int (fst mi) - int (fst mj)\<bar> = 1)"


lemma getitem_in [simp]: "i < length xs \<Longrightarrow> getitem xs i = Inr (xs ! i)"
  by (simp add: getitem_def)

lemma getitem_out [simp]: "\<not> i < length xs \<Longrightarrow> getitem xs i = Inl IndexError"
  by (simp add: getitem_def)

lemma ebind_Inr_iff: "ebind m f = Inr y \<longleftrightarrow> (\<exists>x. m = Inr x \<and> f x = Inr y)"
  by (cases m) auto

lemma mapM_pure: "(\<And>x. x \<in> set xs \<Longrightarrow> f x = Inr (g x)) \<Longrightarrow> mapM f xs = Inr (map g xs)"
  by (induction xs) auto

lemma mapM_Inr_D:
  "mapM f xs = Inr ys \<Longrightarrow> length ys = length xs \<and> (\<forall>i<length xs. f (xs ! i) = Inr (ys ! i))"
proof (induction xs arbitrary: ys)
  case Nil
  then show ?case by simp
next
  case (Cons x xs)
  from Cons.prems obtain y ys' where y: "f x = Inr y" and ys': "mapM f xs = Inr ys'"
    and eq: "ys = y # ys'"
    by (auto split: sum.splits)
  from Cons.IH [OF ys'] show ?case
    using y eq by (auto simp: nth_Cons split: nat.splits)
qed

lemma foldM_append:
  "foldM f s (xs @ ys) = ebind (foldM f s xs) (\<lambda>s'. foldM f s' ys)"
  by (induction xs arbitrary: s) (auto split: sum.splits)

lemma foldM_Inl_first: "f s x = Inl e \<Longrightarrow> foldM f s (x # xs) = Inl e"
  by simp

lemma foldM_single [simp]: "foldM f s [x] = f s x"
  by (cases "f s x") auto

lemma product_append_left:
  "List.product (xs @ ys) zs = List.product xs zs @ List.product ys zs"
  by (induction xs) auto

lemma product_upt_Suc:
  "List.product [0..<Suc m] ys = List.product [0..<m] ys @ map (Pair m) ys"
  by (simp add: product_append_left)

lemma set_recorded:
  "set (recorded P m n) = {(i, j). i < m \<and> j < n \<and> i \<le> j \<and> P i j}"
  by (auto simp: recorded_def)

lemma distinct_recorded: "distinct (recorded P m n)"
  by (simp add: recorded_def distinct_product)

lemma recorded_Suc:
  "recorded P (Suc m) n = recorded P m n @ filter (\<lambda>(i, j). i \<le> j \<and> P i j) (map (Pair m) [0..<n])"
  unfolding recorded_def product_upt_Suc by simp

lemma scan_row:
  assumes step: "\<And>sv idx j. j < n \<Longrightarrow>
      f (sv, idx) (i, j) = Inr (if P i j \<and> (j, i) \<notin> set idx
                                then (sv @ [mk (i, j)], idx @ [(i, j)]) else (sv, idx))"
    and sym: "\<And>j. j < n \<Longrightarrow> P i j = P j i"
    and i: "i < n" and m: "m \<le> n"
  shows "foldM f (map mk (recorded P i n), recorded P i n) (map (Pair i) [0..<m]) =
         Inr (map mk (recorded P i n @ filter (\<lambda>(i, j). i \<le> j \<and> P i j) (map (Pair i) [0..<m])),
              recorded P i n @ filter (\<lambda>(i, j). i \<le> j \<and> P i j) (map (Pair i) [0..<m]))"
  using m
proof (induction m)
  case 0
  then show ?case by simp
next
  case (Suc m)
  let ?row = "filter (\<lambda>(i, j). i \<le> j \<and> P i j) (map (Pair i) [0..<m])"
  have m: "m < n" using Suc.prems by simp
  have mem: "(m, i) \<in> set (recorded P i n @ ?row) \<longleftrightarrow> m < i \<and> P m i"
    using i by (auto simp: set_recorded)
  have split: "map (Pair i) [0..<Suc m] = map (Pair i) [0..<m] @ [(i, m)]"
    by simp
  have IH: "foldM f (map mk (recorded P i n), recorded P i n) (map (Pair i) [0..<m]) =
        Inr (map mk (recorded P i n @ ?row), recorded P i n @ ?row)"
    using Suc.IH m by simp
  have "foldM f (map mk (recorded P i n), recorded P i n) (map (Pair i) [0..<Suc m]) =
        f (map mk (recorded P i n @ ?row), recorded P i n @ ?row) (i, m)"
    unfolding split foldM_append IH by (simp split: sum.splits)
  also have "\<dots> = Inr (if P i m \<and> (m, i) \<notin> set (recorded P i n @ ?row)
                        then (map mk (recorded P i n @ ?row) @ [mk (i, m)], (recorded P i n @ ?row) @ [(i, m)])
                        else (map mk (recorded P i n @ ?row), recorded P i n @ ?row))"
    by (rule step [OF m])
  also have "\<dots> = Inr (map mk (recorded P i n @ filter (\<lambda>(i, j). i \<le> j \<and> P i j) (map (Pair i) [0..<Suc m])),
              recorded P i n @ filter (\<lambda>(i, j). i \<le> j \<and> P i j) (map (Pair i) [0..<Suc m]))"
    unfolding mem using sym [OF m] by auto
  finally show ?case .
qed

lemma scan_pairs:
  assumes step: "\<And>sv idx i j. i < n \<Longrightarrow> j < n \<Longrightarrow>
      f (sv, idx) (i, j) = Inr (if P i j \<and> (j, i) \<notin> set idx
                                then (sv @ [mk (i, j)], idx @ [(i, j)]) else (sv, idx))"
    and sym: "\<And>i j. i < n \<Longrightarrow> j < n \<Longrightarrow> P i j = P j i"
    and m: "m \<le> n"
  shows "foldM f ([], []) (List.product [0..<m] [0..<n]) =
         Inr (map mk (recorded P m n), recorded P m n)"
  using m
proof (induction m)
  case 0
  then show ?case by (simp add: recorded_def)
next
  case (Suc m)
  have m: "m < n" using Suc.prems by simp
  have "foldM f ([], []) (List.product [0..<Suc m] [0..<n]) =
        foldM f (map mk (recorded P m n), recorded P m n) (map (Pair m) [0..<n])"
    unfolding product_upt_Suc foldM_append using Suc.IH m by simp
  also have "\<dots> = Inr (map mk (recorded P (Suc m) n), recorded P (Suc m) n)"
    unfolding recorded_Suc
    by (rule scan_row [where n = n and m = n, OF step [OF m] sym [OF m] m]) simp_all
  finally show ?case .
qed


lemma length_intersection: "length (intersection vi vj) = card (set vi \<inter> set vj)"
proof -
  have "set (filter (\<lambda>v. v \<in> set vj) vi) = set vi \<inter> set vj" by auto
  then show ?thesis
    unfolding intersection_def by (simp add: length_remdups_card_conv)
qed

lemma set_intersection: "set (intersection vi vj) = set vi \<inter> set vj"
  by (auto simp: intersection_def)

lemma distinct_intersection: "distinct (intersection vi vj)"
  by (simp add: intersection_def)

lemma shared_step_eq:
  assumes "i < length vs" "j < length vs"
  shows "shared_step vs nd (sv, idx) (i, j) =
     Inr (if card (set (vs ! i) \<inter> set (vs ! j)) = nd \<and> (j, i) \<notin> set idx
          then (sv @ [(\<lambda>(i, j). intersection (vs ! i) (vs ! j)) (i, j)], idx @ [(i, j)])
          else (sv, idx))"
  using assms by (simp add: shared_step_def Let_def length_intersection)

lemma find_shared_verts_eq:
  assumes "nat n \<le> length vs"
  shows "find_shared_verts vs n nd =
     Inr (map (\<lambda>(i, j). intersection (vs ! i) (vs ! j))
            (recorded (\<lambda>i j. card (set (vs ! i) \<inter> set (vs ! j)) = nd) (nat n) (nat n)),
          recorded (\<lambda>i j. card (set (vs ! i) \<inter> set (vs ! j)) = nd) (nat n) (nat n))"
  unfolding find_shared_verts_def range_def
proof (rule scan_pairs [where n = "nat n"])
  fix sv idx i j
  assume "i < nat n" "j < nat n"
  then have "i < length vs" "j < length vs" using assms by auto
  then show "shared_step vs nd (sv, idx) (i, j) =
     Inr (if card (set (vs ! i) \<inter> set (vs ! j)) = nd \<and> (j, i) \<notin> set idx
          then (sv @ [(\<lambda>(i, j). intersection (vs ! i) (vs ! j)) (i, j)], idx @ [(i, j)])
          else (sv, idx))"
    by (rule shared_step_eq)
next
  fix i j
  show "(card (set (vs ! i) \<inter> set (vs ! j)) = nd) = (card (set (vs ! j) \<inter> set (vs ! i)) = nd)"
    by (simp add: Int_commute)
qed simp

lemma linspace_eq:
  "0 \<le> n \<Longrightarrow> linspace a b (n + 1) = Inr (map (breakpoint a b n) [0..<Suc (nat n)])"
  by (simp add: linspace_def breakpoint_def nat_add_distrib del: upt_Suc)

lemma linspace_neg: "n < -1 \<Longrightarrow> linspace a b (n + 1) = Inl ValueError"
  by (simp add: linspace_def)

lemma breakpoint_inj:
  assumes "a \<noteq> b" "0 < n"
  shows "breakpoint a b n i = breakpoint a b n j \<longleftrightarrow> i = j"
proof -
  have "(b - a) / of_int n \<noteq> 0" using assms by simp
  then show ?thesis
    unfolding breakpoint_def by simp
qed

lemma breakpoint_mid_ne:
  assumes "a \<noteq> b" "0 < n"
  shows "(breakpoint a b n i + breakpoint a b n (Suc i)) / 2 \<noteq> breakpoint a b n j"
proof
  assume eq: "(breakpoint a b n i + breakpoint a b n (Suc i)) / 2 = breakpoint a b n j"
  define h where "h = (b - a) / of_int n"
  have h: "h \<noteq> 0" using assms by (simp add: h_def)
  from eq have "(of_nat i + of_nat (Suc i)) * h = 2 * of_nat j * h"
    unfolding breakpoint_def h_def [symmetric] by (simp add: field_simps)
  with h have "(of_nat i + of_nat (Suc i) :: rat) = 2 * of_nat j" by simp
  then have "(of_nat (i + Suc i) :: rat) = of_nat (2 * j)" by simp
  then have "i + Suc i = 2 * j" by (simp only: of_nat_eq_iff)
  then show False by presburger
qed

lemma breakpoint_mid_inj:
  assumes "a \<noteq> b" "0 < n"
  shows "(breakpoint a b n i + breakpoint a b n (Suc i)) / 2 =
         (breakpoint a b n j + breakpoint a b n (Suc j)) / 2 \<longleftrightarrow> i = j"
proof -
  define h where "h = (b - a) / of_int n"
  have h: "h \<noteq> 0" using assms by (simp add: h_def)
  have "(breakpoint a b n i + breakpoint a b n (Suc i)) / 2 =
         (breakpoint a b n j + breakpoint a b n (Suc j)) / 2 \<longleftrightarrow>
        (of_nat i + of_nat (Suc i)) * h = (of_nat j + of_nat (Suc j)) * h"
    unfolding breakpoint_def h_def [symmetric] by (simp add: field_simps)
  also have "\<dots> \<longleftrightarrow> (of_nat (i + Suc i) :: rat) = of_nat (j + Suc j)"
    using h by simp
  also have "\<dots> \<longleftrightarrow> i + Suc i = j + Suc j" by (simp only: of_nat_eq_iff)
  also have "\<dots> \<longleftrightarrow> i = j" by auto
  finally show ?thesis .
qed














lemma slice_bounds_in:
  assumes "a = int lo" "b = int hi" "lo \<le> hi" "hi \<le> n"
  shows "slice_bounds a b n = (lo, hi)"
  using assms by (simp add: slice_bounds_def Let_def min_def max_def)

lemma set_slice_in:
  assumes "a = int lo" "b = int (lo + length vals)" "lo + length vals \<le> length row"
  shows "set_slice row a b vals = Inr (take lo row @ vals @ drop (lo + length vals) row)"
proof -
  have "slice_bounds a b (length row) = (lo, lo + length vals)"
    by (rule slice_bounds_in) (use assms in simp_all)
  then show ?thesis by (simp add: set_slice_def)
qed

lemma length_placed: "lo + length vals \<le> W \<Longrightarrow> length (placed W lo vals) = W"
  by (simp add: placed_def)

lemma set_slice_zero:
  assumes "a = int lo" "b = int (lo + length vals)" "lo + length vals \<le> W"
  shows "set_slice (replicate W 0) a b vals = Inr (placed W lo vals)"
proof -
  have "set_slice (replicate W 0) a b vals =
        Inr (take lo (replicate W 0) @ vals @ drop (lo + length vals) (replicate W 0))"
    by (rule set_slice_in) (use assms in simp_all)
  moreover have "min W lo = lo" using assms by simp
  ultimately show ?thesis by (simp add: placed_def)
qed



lemma enumerate_map_upt: "enumerate 0 xs = map (\<lambda>k. (k, xs ! k)) [0..<length xs]"
proof -
  have "zip [0..<length xs] xs = map (\<lambda>k. (k, xs ! k)) [0..<length xs]"
    by (rule nth_equalityI) simp_all
  then show ?thesis by (simp add: enumerate_eq_zip)
qed

lemma zeros_eq: "0 \<le> r \<Longrightarrow> 0 \<le> c \<Longrightarrow>
    zeros r c = Inr \<lparr>ncols = nat c, rows = replicate (nat r) (replicate (nat c) 0)\<rparr>"
  by (simp add: zeros_def)







lemma placed_nth:
  assumes "lo + length vals \<le> W" "c < W"
  shows "placed W lo vals ! c = (if lo \<le> c \<and> c < lo + length vals then vals ! (c - lo) else 0)"
  using assms by (auto simp: placed_def nth_append)

lemma overwrite_nth:
  assumes "lo + length vals \<le> length row" "c < length row"
  shows "(take lo row @ vals @ drop (lo + length vals) row) ! c =
         (if lo \<le> c \<and> c < lo + length vals then vals ! (c - lo) else row ! c)"
proof -
  have lo: "min (length row) lo = lo" using assms by simp
  show ?thesis
  proof (cases "c < lo")
    case True
    then show ?thesis by (simp add: nth_append lo)
  next
    case False
    show ?thesis
    proof (cases "c < lo + length vals")
      case True
      with False have "c - lo < length vals" by arith
      with True False show ?thesis by (simp add: nth_append lo)
    next
      case False
      then have 1: "\<not> c - lo < length vals" and 2: "\<not> c < lo" by arith+
      from False have 3: "lo + length vals + (c - lo - length vals) = c" by arith
      have "(take lo row @ vals @ drop (lo + length vals) row) ! c =
            drop (lo + length vals) row ! (c - lo - length vals)"
        using 1 2 by (simp add: nth_append lo)
      also have "\<dots> = row ! c"
        using assms 3 by simp
      finally show ?thesis using False by simp
    qed
  qed
qed

text \<open>Two writes into a row of zeros.\<close>

lemma two_writes:
  assumes "a1 = int o1" "b1 = int (o1 + length v1)" "o1 + length v1 \<le> W"
      and "a2 = int o2" "b2 = int (o2 + length v2)" "o2 + length v2 \<le> W"
  shows "ebind (set_slice (replicate W 0) a1 b1 v1) (\<lambda>row. set_slice row a2 b2 v2) =
         Inr (map (\<lambda>c. if o2 \<le> c \<and> c < o2 + length v2 then v2 ! (c - o2)
                        else if o1 \<le> c \<and> c < o1 + length v1 then v1 ! (c - o1)
                        else 0) [0..<W])"
proof -
  have s1: "set_slice (replicate W 0) a1 b1 v1 = Inr (placed W o1 v1)"
    by (rule set_slice_zero) (use assms in simp_all)
  have len: "length (placed W o1 v1) = W"
    using assms by (simp add: length_placed)
  have s2: "set_slice (placed W o1 v1) a2 b2 v2 =
        Inr (take o2 (placed W o1 v1) @ v2 @ drop (o2 + length v2) (placed W o1 v1))"
    by (rule set_slice_in) (use assms len in simp_all)
  have "take o2 (placed W o1 v1) @ v2 @ drop (o2 + length v2) (placed W o1 v1) =
        map (\<lambda>c. if o2 \<le> c \<and> c < o2 + length v2 then v2 ! (c - o2)
                        else if o1 \<le> c \<and> c < o1 + length v1 then v1 ! (c - o1)
                        else 0) [0..<W]"
  proof (rule nth_equalityI)
    show "length (take o2 (placed W o1 v1) @ v2 @ drop (o2 + length v2) (placed W o1 v1)) =
          length (map (\<lambda>c. if o2 \<le> c \<and> c < o2 + length v2 then v2 ! (c - o2)
                        else if o1 \<le> c \<and> c < o1 + length v1 then v1 ! (c - o1)
                        else 0) [0..<W])"
      using assms len by simp
  next
    fix c assume "c < length (take o2 (placed W o1 v1) @ v2 @ drop (o2 + length v2) (placed W o1 v1))"
    then have c: "c < W" using assms len by simp
    have "(take o2 (placed W o1 v1) @ v2 @ drop (o2 + length v2) (placed W o1 v1)) ! c =
          (if o2 \<le> c \<and> c < o2 + length v2 then v2 ! (c - o2) else placed W o1 v1 ! c)"
      by (rule overwrite_nth) (use assms len c in simp_all)
    then show "(take o2 (placed W o1 v1) @ v2 @ drop (o2 + length v2) (placed W o1 v1)) ! c =
          map (\<lambda>c. if o2 \<le> c \<and> c < o2 + length v2 then v2 ! (c - o2)
                        else if o1 \<le> c \<and> c < o1 + length v1 then v1 ! (c - o1)
                        else 0) [0..<W] ! c"
      using c assms(3) by (simp add: placed_nth)
  qed
  then show ?thesis by (simp add: s1 s2)
qed










lemma length_concat_map:
  assumes "\<And>x. x \<in> set xs \<Longrightarrow> length (f x) = k"
  shows "length (concat (map f xs)) = k * length xs"
  using assms by (induction xs) auto


text \<open>The 3D continuity block, for any \<open>ndim\<close> with \<open>n_params = ndim * (ndim + 1)\<close>.\<close>

lemma block_end:
  fixes i N k nd :: nat
  assumes "i < N" "k < nd"
  shows "nd * (nd + 1) * i + k * (nd + 1) + (nd + 1) \<le> nd * (nd + 1) * Suc i"
    and "nd * (nd + 1) * Suc i \<le> nd * (nd + 1) * N"
proof -
  have "Suc k * (nd + 1) \<le> nd * (nd + 1)"
    using assms by (intro mult_le_mono1) simp
  then show "nd * (nd + 1) * i + k * (nd + 1) + (nd + 1) \<le> nd * (nd + 1) * Suc i"
    by simp
  show "nd * (nd + 1) * Suc i \<le> nd * (nd + 1) * N"
    using assms by (intro mult_le_mono2) simp
qed

lemma block_disjoint:
  fixes i j k nd k' :: nat
  assumes "i < j" "k < nd"
  shows "nd * (nd + 1) * i + k * (nd + 1) + (nd + 1) \<le> nd * (nd + 1) * j + k' * (nd + 1)"
proof -
  have "nd * (nd + 1) * i + k * (nd + 1) + (nd + 1) \<le> nd * (nd + 1) * Suc i"
    using block_end(1) [where i = i and N = "Suc i" and k = k and nd = nd] assms by simp
  also have "\<dots> \<le> nd * (nd + 1) * j"
    using assms by (intro mult_le_mono2) simp
  finally show ?thesis by simp
qed

lemma continuity_row3_eq:
  assumes "p < length sv" "m < length (sv ! p)" "length (sv ! p ! m) = nd + 1"
      and "i < N" "j < N" "i \<noteq> j" "k < nd" "np = int (nd * (nd + 1))"
  shows "continuity_row3 (int N) np nd sv ((p, i, j), m, k) =
         Inr (continuity_row (nd * (nd + 1) * N)
                (nd * (nd + 1) * i + k * (nd + 1)) (nd * (nd + 1) * j + k * (nd + 1))
                (sv ! p ! m))"
proof -
  let ?K = "nd * (nd + 1)"
  let ?v = "sv ! p ! m"
  let ?o1 = "?K * i + k * (nd + 1)"
  let ?o2 = "?K * j + k * (nd + 1)"
  have W: "nat (np * int N) = ?K * N"
    unfolding assms(8) by (simp only: nat_mult_distrib [OF of_nat_0_le_iff] nat_int)
  have np: "0 \<le> np * int N" unfolding assms(8) by simp
  have e1: "?o1 + length ?v \<le> ?K * N"
    using block_end [OF assms(4,7)] assms(3) by simp
  have e2: "?o2 + length (map uminus ?v) \<le> ?K * N"
    using block_end [OF assms(5,7)] assms(3) by simp
  have two: "ebind (set_slice (replicate (?K * N) 0)
                 (np * int i + int k * (int nd + 1))
                 (np * int i + int k * (int nd + 1) + (int nd + 1)) ?v)
          (\<lambda>row. set_slice row (np * int j + int k * (int nd + 1))
                 (np * int j + int k * (int nd + 1) + (int nd + 1)) (map uminus ?v)) =
        Inr (map (\<lambda>c. if ?o2 \<le> c \<and> c < ?o2 + length (map uminus ?v)
                         then map uminus ?v ! (c - ?o2)
                        else if ?o1 \<le> c \<and> c < ?o1 + length ?v then ?v ! (c - ?o1)
                        else 0) [0..<?K * N])"
  proof (rule two_writes [OF _ _ e1 _ _ e2])
    show "np * int i + int k * (int nd + 1) = int ?o1"
      unfolding assms(8) by (simp add: algebra_simps)
    show "np * int i + int k * (int nd + 1) + (int nd + 1) = int (?o1 + length ?v)"
      unfolding assms(8) using assms(3) by (simp add: algebra_simps)
    show "np * int j + int k * (int nd + 1) = int ?o2"
      unfolding assms(8) by (simp add: algebra_simps)
    show "np * int j + int k * (int nd + 1) + (int nd + 1) = int (?o2 + length (map uminus ?v))"
      unfolding assms(8) using assms(3) by (simp add: algebra_simps)
  qed
  have same: "map (\<lambda>c. if ?o2 \<le> c \<and> c < ?o2 + length (map uminus ?v)
                         then map uminus ?v ! (c - ?o2)
                        else if ?o1 \<le> c \<and> c < ?o1 + length ?v then ?v ! (c - ?o1)
                        else 0) [0..<?K * N] =
        continuity_row (?K * N) ?o1 ?o2 ?v"
    unfolding continuity_row_def
  proof (rule map_cong [OF refl])
    fix c assume "c \<in> set [0..<?K * N]"
    have disj: "?o1 + (nd + 1) \<le> ?o2 \<or> ?o2 + (nd + 1) \<le> ?o1"
    proof (cases "i < j")
      case True
      then show ?thesis using block_disjoint [OF True assms(7), of k] by simp
    next
      case False
      then have "j < i" using assms(6) by simp
      then show ?thesis using block_disjoint [OF _ assms(7), of j i k] by simp
    qed
    have n: "map uminus ?v ! (c - ?o2) = - (?v ! (c - ?o2))" if "?o2 \<le> c" "c < ?o2 + length ?v"
    proof -
      from that have "c - ?o2 < length ?v" by arith
      then show ?thesis by simp
    qed
    show "(if ?o2 \<le> c \<and> c < ?o2 + length (map uminus ?v) then map uminus ?v ! (c - ?o2)
           else if ?o1 \<le> c \<and> c < ?o1 + length ?v then ?v ! (c - ?o1) else 0) =
          (if ?o1 \<le> c \<and> c < ?o1 + length ?v then ?v ! (c - ?o1)
           else if ?o2 \<le> c \<and> c < ?o2 + length ?v then - (?v ! (c - ?o2)) else 0)"
      using disj n assms(3) by auto
  qed
  show ?thesis
    unfolding continuity_row3_def prod.case Let_def
    using assms(1,2) two same np by (simp add: zeros_def W)
qed




lemma create_continuity_constrains3_eq:
  assumes "length idx \<le> length sv" "np = int (nd * (nd + 1))"
      and "\<And>p. p < length idx \<Longrightarrow> fst (idx ! p) < N \<and> snd (idx ! p) < N \<and>
             fst (idx ! p) \<noteq> snd (idx ! p) \<and> nd \<le> length (sv ! p) \<and>
             (\<forall>m<nd. length (sv ! p ! m) = nd + 1)"
  shows "create_continuity_constrains3 (int N) np nd vs (sv, idx) =
         Inr \<lparr>ncols = nd * (nd + 1) * N,
              rows = map (\<lambda>((p, i, j), m, k).
                        continuity_row (nd * (nd + 1) * N)
                          (nd * (nd + 1) * i + k * (nd + 1)) (nd * (nd + 1) * j + k * (nd + 1))
                          (sv ! p ! m))
                       (List.product (map (\<lambda>p. (p, idx ! p)) [0..<length idx])
                          (List.product [0..<nd] [0..<nd]))\<rparr>"
proof -
  let ?g = "\<lambda>((p, i, j), m, k).
                        continuity_row (nd * (nd + 1) * N)
                          (nd * (nd + 1) * i + k * (nd + 1)) (nd * (nd + 1) * j + k * (nd + 1))
                          (sv ! p ! m)"
  let ?xs = "List.product (map (\<lambda>p. (p, idx ! p)) [0..<length idx])
                          (List.product [0..<nd] [0..<nd])"
  have "mapM (continuity_row3 (int N) np nd sv) ?xs = Inr (map ?g ?xs)"
  proof (rule mapM_pure)
    fix x assume "x \<in> set ?xs"
    then obtain p m k where x: "x = ((p, idx ! p), m, k)" and p: "p < length idx"
      and m: "m < nd" and k: "k < nd"
      by auto
    obtain i j where ij: "idx ! p = (i, j)" by (cases "idx ! p")
    have "continuity_row3 (int N) np nd sv ((p, i, j), m, k) =
         Inr (continuity_row (nd * (nd + 1) * N)
                (nd * (nd + 1) * i + k * (nd + 1)) (nd * (nd + 1) * j + k * (nd + 1))
                (sv ! p ! m))"
      by (rule continuity_row3_eq) (use assms(1,2) assms(3) [OF p] p m k ij in auto)
    then show "continuity_row3 (int N) np nd sv x = Inr (?g x)"
      by (simp add: x ij)
  qed
  moreover have "nat (np * int N) = nd * (nd + 1) * N"
    unfolding assms(2) by (simp only: nat_mult_distrib [OF of_nat_0_le_iff] nat_int)
  moreover have "0 \<le> np * int N" unfolding assms(2) by simp
  ultimately show ?thesis
    by (simp add: create_continuity_constrains3_def zeros_def enumerate_map_upt)
qed



lemma init_outside3:
  "init fv find_verts_outside3 cc zbc np n nd ncs dmin dmax False vp =
     (case fv of Inl e \<Rightarrow> Inl e
      | Inr (vs, cs) \<Rightarrow> (case find_shared_verts vs n nd of Inl e \<Rightarrow> Inl e
                         | Inr sh \<Rightarrow> Inl NotImplementedError))"
  by (auto simp: init_def find_verts_outside3_def split: sum.splits)









text \<open>What the interior scan records, for any vertex table without a simplex of exactly
  \<open>ndim\<close> distinct vertices.\<close>

lemma find_shared_verts_adjacency:
  assumes "nat n = length vs" "\<forall>s\<in>set vs. card (set s) \<noteq> d"
  shows "\<exists>sv idx. find_shared_verts vs n d = Inr (sv, idx)
           \<and> (\<forall>i j. (i, j) \<in> set idx \<longleftrightarrow>
                  i < j \<and> j < length vs \<and> card (set (vs ! i) \<inter> set (vs ! j)) = d)
           \<and> distinct idx \<and> length sv = length idx
           \<and> (\<forall>p<length idx. sv ! p = intersection (vs ! fst (idx ! p)) (vs ! snd (idx ! p)))"
proof -
  let ?P = "\<lambda>i j. card (set (vs ! i) \<inter> set (vs ! j)) = d"
  let ?idx = "recorded ?P (nat n) (nat n)"
  have eq: "find_shared_verts vs n d =
     Inr (map (\<lambda>(i, j). intersection (vs ! i) (vs ! j)) ?idx, ?idx)"
    by (rule find_shared_verts_eq) (use assms in simp)
  have mem: "(i, j) \<in> set ?idx \<longleftrightarrow> i < j \<and> j < length vs \<and> ?P i j" for i j
  proof -
    have "\<not> ?P i i" if "i < length vs"
      using assms(2) that by (auto simp: all_set_conv_all_nth)
    then show ?thesis
      unfolding set_recorded using assms(1) by (cases "i = j") auto
  qed
  show ?thesis
    unfolding eq using mem distinct_recorded [of ?P "nat n" "nat n"]
    by (simp add: case_prod_unfold)
qed


lemma cell_verts3_eq:
  assumes "i < N1" "j < N1" "k < N0"
  shows "cell_verts3 (map (breakpoint a0 b0 n0) [0..<Suc N0])
           (map (breakpoint a1 b1 n1) [0..<Suc N1]) (map (breakpoint a1 b1 n1) [0..<Suc N1])
           (i, j, k) = Inr (grid_cell3 a0 b0 n0 a1 b1 n1 (i, j, k))"
  using assms
  by (simp add: cell_verts3_def grid_cell3_def pyramids_def Let_def del: upt_Suc)

lemma cell_verts3_out:
  assumes "N1 \<le> i" "j < N1" "k < N0"
  shows "cell_verts3 (map (breakpoint a0 b0 n0) [0..<Suc N0])
           (map (breakpoint a1 b1 n1) [0..<Suc N1]) (map (breakpoint a1 b1 n1) [0..<Suc N1])
           (i, j, k) = Inl IndexError"
  using assms
  by (cases "i < Suc N1") (simp_all add: cell_verts3_def Let_def del: upt_Suc)

lemma mapM_Inl:
  assumes "x \<in> set xs" "f x = Inl e" "\<forall>y e'. f y = Inl e' \<longrightarrow> e' = e"
  shows "mapM f xs = Inl e"
  using assms(1)
proof (induction xs)
  case Nil
  then show ?case by simp
next
  case (Cons y ys)
  show ?case
  proof (cases "f y")
    case (Inl e')
    then have "e' = e" using assms(3) by blast
    with Inl show ?thesis by simp
  next
    case (Inr z)
    have "x \<in> set ys"
    proof (rule ccontr)
      assume "x \<notin> set ys"
      with Cons.prems have "x = y" by simp
      with Inr assms(2) show False by simp
    qed
    then have "mapM f ys = Inl e" by (rule Cons.IH)
    with Inr show ?thesis by simp
  qed
qed

lemma ebind_getitem_error:
  "ebind (getitem xs i) f = Inl e \<Longrightarrow> (\<And>x. f x = Inl e \<Longrightarrow> e = IndexError) \<Longrightarrow> e = IndexError"
  by (auto simp: getitem_def split: if_splits)

lemma cell_verts3_error:
  assumes "cell_verts3 Vx Vy Vz p = Inl e"
  shows "e = IndexError"
proof -
  obtain i j k where p: "p = (i, j, k)" by (cases p) auto
  from assms show ?thesis
    unfolding cell_verts3_def p prod.case
    by (elim ebind_getitem_error) (simp add: Let_def)
qed

lemma getitem_literal:
  "getitem (x # xs) 0 = Inr x" "getitem (x # y # ys) 1 = Inr y" "getitem (x # y # z # zs) 2 = Inr z"
  by (simp_all add: getitem_def)

lemma find_verts3_unfold:
  assumes "0 \<le> n0" "0 \<le> n1"
  shows "find_verts3 [n0, n1, n2] [a0, a1, a2] [b0, b1, b2] =
     ebind (mapM (cell_verts3 (map (breakpoint a0 b0 n0) [0..<Suc (nat n0)])
                          (map (breakpoint a1 b1 n1) [0..<Suc (nat n1)])
                          (map (breakpoint a1 b1 n1) [0..<Suc (nat n1)]))
              (boxes3 n0 n1 n2))
       (\<lambda>vss. Inr (concat vss, concat (map cell_index3 (boxes3 n0 n1 n2))))"
  unfolding find_verts3_def getitem_literal ebind.simps
    linspace_eq [OF assms(1)] linspace_eq [OF assms(2)]
  by (rule refl)

lemma find_verts3_eq:
  assumes "0 \<le> n0" "0 \<le> n1" "n2 \<le> n1"
  shows "find_verts3 [n0, n1, n2] [a0, a1, a2] [b0, b1, b2] =
     Inr (concat (map (grid_cell3 a0 b0 n0 a1 b1 n1) (boxes3 n0 n1 n2)),
          concat (map cell_index3 (boxes3 n0 n1 n2)))"
proof -
  have "mapM (cell_verts3 (map (breakpoint a0 b0 n0) [0..<Suc (nat n0)])
                          (map (breakpoint a1 b1 n1) [0..<Suc (nat n1)])
                          (map (breakpoint a1 b1 n1) [0..<Suc (nat n1)]))
          (boxes3 n0 n1 n2) =
        Inr (map (grid_cell3 a0 b0 n0 a1 b1 n1) (boxes3 n0 n1 n2))"
  proof (rule mapM_pure)
    fix x assume "x \<in> set (boxes3 n0 n1 n2)"
    then obtain i j k where x: "x = (i, j, k)" and "i < nat n2" "j < nat n1" "k < nat n0"
      by (auto simp: boxes3_def range_def)
    then have "i < nat n1" using assms by simp
    then show "cell_verts3 (map (breakpoint a0 b0 n0) [0..<Suc (nat n0)])
                          (map (breakpoint a1 b1 n1) [0..<Suc (nat n1)])
                          (map (breakpoint a1 b1 n1) [0..<Suc (nat n1)]) x =
               Inr (grid_cell3 a0 b0 n0 a1 b1 n1 x)"
      unfolding x using \<open>j < nat n1\<close> \<open>k < nat n0\<close> by (rule cell_verts3_eq)
  qed
  then show ?thesis
    unfolding find_verts3_unfold [OF assms(1,2)] by (simp only: ebind.simps)
qed

lemma find_verts3_raises:
  assumes "0 < n0" "0 < n1" "n1 < n2"
  shows "find_verts3 [n0, n1, n2] [a0, a1, a2] [b0, b1, b2] = Inl IndexError"
proof -
  have "mapM (cell_verts3 (map (breakpoint a0 b0 n0) [0..<Suc (nat n0)])
                          (map (breakpoint a1 b1 n1) [0..<Suc (nat n1)])
                          (map (breakpoint a1 b1 n1) [0..<Suc (nat n1)]))
          (boxes3 n0 n1 n2) = Inl IndexError"
  proof (rule mapM_Inl)
    show "(nat n1, 0, 0) \<in> set (boxes3 n0 n1 n2)"
      using assms by (auto simp: boxes3_def range_def)
    show "cell_verts3 (map (breakpoint a0 b0 n0) [0..<Suc (nat n0)])
                          (map (breakpoint a1 b1 n1) [0..<Suc (nat n1)])
                          (map (breakpoint a1 b1 n1) [0..<Suc (nat n1)]) (nat n1, 0, 0) =
          Inl IndexError"
      by (rule cell_verts3_out) (use assms in auto)
  qed (use cell_verts3_error in blast)
  moreover have "0 \<le> n0" "0 \<le> n1" using assms by simp_all
  ultimately show ?thesis
    by (simp only: find_verts3_unfold ebind.simps)
qed

lemma length_grid3:
  "length (concat (map (grid_cell3 a0 b0 n0 a1 b1 n1) (boxes3 n0 n1 n2))) =
     6 * (nat n2 * (nat n1 * nat n0))"
  using length_concat_map [of "boxes3 n0 n1 n2" "grid_cell3 a0 b0 n0 a1 b1 n1" 6]
  by (auto simp: grid_cell3_def pyramids_def boxes3_def range_def)

lemma pyramids_distinct:
  assumes "x0 \<noteq> x1" "y0 \<noteq> y1" "z0 \<noteq> z1"
  shows "\<forall>s\<in>set (pyramids x0 x1 y0 y1 z0 z1).
           distinct s \<and> length s = 5 \<and> (\<forall>v\<in>set s. length v = 4)"
proof -
  have mx: "(x0 + x1) / 2 \<noteq> x0" "(x0 + x1) / 2 \<noteq> x1"
    using assms(1) by (auto simp: field_simps)
  have ne: "x1 \<noteq> x0" "y1 \<noteq> y0" "z1 \<noteq> z0" using assms by auto
  let ?c = "[(x0 + x1) / 2, (y0 + y1) / 2, (z0 + z1) / 2, 1]"
  have d1: "distinct [?c, [x0, y0, z0, 1], [x0, y0, z1, 1], [x0, y1, z0, 1], [x0, y1, z1, 1]]"
    by (simp add: assms mx ne)
  have d2: "distinct [?c, [x0, y0, z0, 1], [x0, y0, z1, 1], [x1, y0, z0, 1], [x1, y0, z1, 1]]"
    by (simp add: assms mx ne)
  have d3: "distinct [?c, [x0, y0, z0, 1], [x0, y1, z0, 1], [x1, y0, z0, 1], [x1, y0, z1, 1]]"
    by (simp add: assms mx ne)
  have d4: "distinct [?c, [x1, y0, z0, 1], [x1, y0, z1, 1], [x1, y1, z0, 1], [x1, y1, z1, 1]]"
    by (simp add: assms mx ne)
  have d5: "distinct [?c, [x0, y1, z0, 1], [x0, y1, z1, 1], [x1, y1, z0, 1], [x1, y1, z1, 1]]"
    by (simp add: assms mx ne)
  have d6: "distinct [?c, [x0, y0, z1, 1], [x0, y1, z1, 1], [x1, y0, z1, 1], [x1, y1, z1, 1]]"
    by (simp add: assms mx ne)
  have len: "\<forall>s\<in>set (pyramids x0 x1 y0 y1 z0 z1). length s = 5 \<and> (\<forall>v\<in>set s. length v = 4)"
    unfolding pyramids_def by simp
  have dis: "\<forall>s\<in>set (pyramids x0 x1 y0 y1 z0 z1). distinct s"
    unfolding pyramids_def by (simp only: list.set ball_simps d1 d2 d3 d4 d5 d6 simp_thms)
  from len dis show ?thesis by blast
qed

lemma pyramids_card:
  assumes "x0 \<noteq> x1" "y0 \<noteq> y1" "z0 \<noteq> z1" "s \<in> set (pyramids x0 x1 y0 y1 z0 z1)"
  shows "card (set s) = 5" and "\<forall>v\<in>set s. length v = 4"
proof -
  from pyramids_distinct [OF assms(1-3)] assms(4)
  have d: "distinct s" "length s = 5" "\<forall>v\<in>set s. length v = 4" by blast+
  show "card (set s) = 5" using d(1,2) by (simp add: distinct_card)
  show "\<forall>v\<in>set s. length v = 4" by (rule d(3))
qed

lemma grid3_simplex:
  assumes "a0 \<noteq> b0" "a1 \<noteq> b1" "0 < n0" "0 < n1"
      and "s \<in> set (concat (map (grid_cell3 a0 b0 n0 a1 b1 n1) (boxes3 n0 n1 n2)))"
  shows "card (set s) = 5" and "\<forall>v\<in>set s. length v = 4"
proof -
  from assms(5) obtain i j k where
    s: "s \<in> set (pyramids (breakpoint a0 b0 n0 k) (breakpoint a0 b0 n0 (Suc k))
                 (breakpoint a1 b1 n1 j) (breakpoint a1 b1 n1 (Suc j))
                 (breakpoint a1 b1 n1 i) (breakpoint a1 b1 n1 (Suc i)))"
    by (auto simp: grid_cell3_def)
  have x: "breakpoint a0 b0 n0 k \<noteq> breakpoint a0 b0 n0 (Suc k)"
    using breakpoint_inj [OF assms(1,3), of k "Suc k"] by simp
  have y: "breakpoint a1 b1 n1 j \<noteq> breakpoint a1 b1 n1 (Suc j)"
    using breakpoint_inj [OF assms(2,4), of j "Suc j"] by simp
  have z: "breakpoint a1 b1 n1 i \<noteq> breakpoint a1 b1 n1 (Suc i)"
    using breakpoint_inj [OF assms(2,4), of i "Suc i"] by simp
  show "card (set s) = 5" by (rule pyramids_card(1) [OF x y z s])
  show "\<forall>v\<in>set s. length v = 4" by (rule pyramids_card(2) [OF x y z s])
qed










lemma same_outer_edge_irrefl: "\<not> same_outer_edge n0 n1 mi mi"
  by simp



text \<open>The first assignment of the 3D zero-boundary builder.\<close>

lemma six_into_twelve:
  assumes "length vals = 6"
  shows "set_slice (replicate (12 * k) 0) 24 36 vals = Inl ValueError"
proof -
  have "slice_bounds 24 36 (12 * k) = (if k \<le> 2 then (12 * k, 12 * k) else (24, 36))"
    by (auto simp: slice_bounds_def Let_def)
  then show ?thesis
    using assms by (simp add: set_slice_def)
qed

lemma product_first:
  "xs \<noteq> [] \<Longrightarrow> ys \<noteq> [] \<Longrightarrow> List.product xs ys = (hd xs, hd ys) # tl (List.product xs ys)"
  by (cases xs; cases ys) simp_all

lemma create_zero_boundary_constrains3_error:
  assumes "0 < nx" "0 < ny" "0 < nz" "0 \<le> n"
  shows "create_zero_boundary_constrains3 [nx, ny, nz] n vs =
         Inl (if nz = 1 then ZeroDivisionError else ValueError)"
proof -
  let ?R = "2 * ((nx + 1) * (ny + 1) + (nx + 1) * (nz + 1) + (ny + 1) * (nz + 1))"
  let ?A = "\<lparr>ncols = nat (12 * n), rows = replicate (nat ?R) (replicate (nat (12 * n)) 0)\<rparr>"
  have p: "0 < nx + 1" "0 < ny + 1" "0 < nz + 1"
    using assms by simp_all
  have R: "0 < ?R"
    by (rule mult_pos_pos [OF zero_less_numeral
          add_pos_pos [OF add_pos_pos [OF mult_pos_pos [OF p(1) p(2)] mult_pos_pos [OF p(1) p(3)]]
            mult_pos_pos [OF p(2) p(3)]]])
  then have z: "zeros ?R (12 * n) = Inr ?A"
    using assms by (intro zeros_eq) simp_all
  have W: "nat (12 * n) = 12 * nat n" using assms by simp
  have row0: "rows ?A ! 0 = replicate (12 * nat n) 0" "0 < length (rows ?A)"
    using R by (simp_all add: W)
  have first: "xy_step nx ny nz (?A, 0) (0, 0, 0) =
               Inl (if nz = 1 then ZeroDivisionError else ValueError)"
  proof (cases "nz = 1")
    case True
    then show ?thesis
      using assms by (simp add: xy_step_def boundary_assign3_def truediv_def Let_def)
  next
    case False
    have "row_assign ?A 0 24 36 [0, 0, 0, 0, 0, 1] = Inl ValueError"
      unfolding row_assign_def using row0 six_into_twelve [of "[0, 0, 0, 0, 0, 1]" "nat n"]
      by simp
    then show ?thesis
      using assms False
      by (simp add: xy_step_def boundary_assign3_def truediv_def Let_def)
  qed
  have inner: "List.product (range (ny + 1)) (range (nx + 1)) =
        (0, 0) # tl (List.product (range (ny + 1)) (range (nx + 1)))"
  proof -
    have "range (ny + 1) \<noteq> []" "range (nx + 1) \<noteq> []"
      "hd (range (ny + 1)) = 0" "hd (range (nx + 1)) = 0"
      using assms by (simp_all add: range_def hd_upt)
    then show ?thesis
      using product_first [of "range (ny + 1)" "range (nx + 1)"] by simp
  qed
  let ?inner = "List.product (range (ny + 1)) (range (nx + 1))"
  have "?inner \<noteq> []" "hd ?inner = (0, 0)"
    using inner by (metis list.distinct(1), metis list.sel(1))
  then have "List.product [0, nz - 1] ?inner = (0, 0, 0) # tl (List.product [0, nz - 1] ?inner)"
    using product_first [of "[0, nz - 1]" ?inner] by simp
  then obtain rest where outer: "List.product [0, nz - 1] ?inner = (0, 0, 0) # rest"
    by blast
  have "foldM (xy_step nx ny nz) (?A, 0) (List.product [0, nz - 1] ?inner) =
        Inl (if nz = 1 then ZeroDivisionError else ValueError)"
    unfolding outer using first by simp
  then show ?thesis
    unfolding create_zero_boundary_constrains3_def list.case z ebind.simps by simp
qed

text \<open>The 3D constructor on a grid of positive cell counts over a non-degenerate domain.\<close>

lemma init_zero_boundary_error:
  assumes "fv = Inr (vs, cs)" "find_shared_verts vs n nd = Inr sh" "cc vs sh = Inr L0"
      and "zbc vs = Inl e"
  shows "init fv fvo cc zbc np n nd ncs dmin dmax True vp = Inl e"
  using assms by (simp add: init_def)

lemma tesselation3D_error:
  assumes "0 < n0" "0 < n1" "0 < n2" "a0 \<noteq> b0" "a1 \<noteq> b1"
  shows "Tesselation3D [n0, n1, n2] [a0, a1, a2] [b0, b1, b2] zb vp =
         Inl (if n1 < n2 then IndexError
              else if \<not> zb then NotImplementedError
              else if n2 = 1 then ZeroDivisionError else ValueError)"
proof (cases "n1 < n2")
  case True
  then show ?thesis
    using find_verts3_raises [OF assms(1,2) True, of a0 a1 a2 b0 b1 b2]
    by (simp add: Tesselation3D_def init_def)
next
  case False
  define vs where "vs = concat (map (grid_cell3 a0 b0 n0 a1 b1 n1) (boxes3 n0 n1 n2))"
  define cs where "cs = concat (map cell_index3 (boxes3 n0 n1 n2))"
  define n where "n = 6 * (n0 * (n1 * n2))"
  have fv: "find_verts3 [n0, n1, n2] [a0, a1, a2] [b0, b1, b2] = Inr (vs, cs)"
    unfolding vs_def cs_def using assms False by (intro find_verts3_eq) simp_all
  have "length vs = 6 * (nat n2 * (nat n1 * nat n0))"
    unfolding vs_def by (rule length_grid3)
  also have "\<dots> = nat n"
    using assms by (simp add: n_def nat_mult_distrib mult_ac)
  finally have len: "nat n = length vs" by simp
  have n0': "0 \<le> n" using assms by (simp add: n_def)
  then have nN: "n = int (length vs)" using len by simp
  have simp5: "card (set s) = 5" and simp4: "\<forall>v\<in>set s. length v = 4" if "s \<in> set vs" for s
    using grid3_simplex [OF assms(4,5,1,2)] that unfolding vs_def by blast+
  then have ne: "\<forall>s\<in>set vs. card (set s) \<noteq> 3" by simp
  from find_shared_verts_adjacency [OF len ne] obtain sv idx where
    r: "find_shared_verts vs n 3 = Inr (sv, idx)"
    and m: "\<forall>i j. (i, j) \<in> set idx \<longleftrightarrow>
                  i < j \<and> j < length vs \<and> card (set (vs ! i) \<inter> set (vs ! j)) = 3"
    and l: "length sv = length idx"
    and i: "\<forall>p<length idx. sv ! p = intersection (vs ! fst (idx ! p)) (vs ! snd (idx ! p))"
    by blast
  show ?thesis
  proof (cases zb)
    case False
    then show ?thesis
      using \<open>\<not> n1 < n2\<close> fv r
      by (simp add: Tesselation3D_def init_outside3 n_def mult_ac)
  next
    case True
    have wf: "fst (idx ! p) < length vs \<and> snd (idx ! p) < length vs \<and>
             fst (idx ! p) \<noteq> snd (idx ! p) \<and> 3 \<le> length (sv ! p) \<and>
             (\<forall>m<3. length (sv ! p ! m) = 3 + 1)" if p: "p < length idx" for p
    proof -
      obtain a b where ab: "idx ! p = (a, b)" by (cases "idx ! p")
      then have "(a, b) \<in> set idx" using p by (metis nth_mem)
      then have k: "a < b" "b < length vs" "card (set (vs ! a) \<inter> set (vs ! b)) = 3"
        using m by blast+
      have sp: "sv ! p = intersection (vs ! a) (vs ! b)" using i p ab by simp
      then have lp: "length (sv ! p) = 3" using k(3) by (simp add: length_intersection)
      have "length (sv ! p ! q) = 4" if "q < 3" for q
      proof -
        have "sv ! p ! q \<in> set (sv ! p)" using that lp by simp
        then have "sv ! p ! q \<in> set (vs ! a)" unfolding sp by (simp add: set_intersection)
        moreover have "vs ! a \<in> set vs" using k by simp
        ultimately show ?thesis using simp4 by blast
      qed
      with k lp ab show ?thesis by simp
    qed
    have cc: "create_continuity_constrains3 n 12 3 vs (sv, idx) =
         Inr \<lparr>ncols = 3 * (3 + 1) * length vs,
              rows = map (\<lambda>((p, i, j), m, k).
                        continuity_row (3 * (3 + 1) * length vs)
                          (3 * (3 + 1) * i + k * (3 + 1)) (3 * (3 + 1) * j + k * (3 + 1))
                          (sv ! p ! m))
                       (List.product (map (\<lambda>p. (p, idx ! p)) [0..<length idx])
                          (List.product [0..<3] [0..<3]))\<rparr>"
      unfolding nN by (rule create_continuity_constrains3_eq) (use l wf in simp_all)
    have zb: "create_zero_boundary_constrains3 [n0, n1, n2] n vs =
              Inl (if n2 = 1 then ZeroDivisionError else ValueError)"
      by (rule create_zero_boundary_constrains3_error [OF assms(1-3) n0'])
    have "init (find_verts3 [n0, n1, n2] [a0, a1, a2] [b0, b1, b2]) find_verts_outside3
            (create_continuity_constrains3 n 12 3) (create_zero_boundary_constrains3 [n0, n1, n2] n)
            12 n 3 [n0, n1, n2] [a0, a1, a2] [b0, b1, b2] True vp =
          Inl (if n2 = 1 then ZeroDivisionError else ValueError)"
      by (rule init_zero_boundary_error
            [where cc = "create_continuity_constrains3 n 12 3"
               and zbc = "create_zero_boundary_constrains3 [n0, n1, n2] n",
             OF fv r cc zb])
    then show ?thesis
      using True \<open>\<not> n1 < n2\<close> by (simp add: Tesselation3D_def n_def mult_ac)
  qed
qed


section \<open>The 1D scenario\<close>

text \<open>
  C3. \<open>Tesselation1D([5], [0], [1], zero_boundary=True, volume_perservation=True)\<close>
  succeeds with \<open>nC = 5\<close> and \<open>n_params = 2\<close>; its matrix \<open>L\<close> has 10 columns and 11
  rows: the 4 rows of \<open>create_continuity_constrains\<close>, then the 2 rows of
  \<open>create_zero_boundary_constrains\<close>, then the 5 rows of \<open>create_zero_trace_constrains\<close>.
\<close>

theorem tesselation1D_five_cells:
  "Tesselation1D [5] [0] [1] True True =
     Inr \<lparr>nc = [5], domain_min = [0], domain_max = [1], zero_boundary = True,
          volume_perservation = True, n_params = 2, nC = 5, ndim = 1,
          verts = [[[0, 1], [1 / 5, 1]], [[1 / 5, 1], [2 / 5, 1]], [[2 / 5, 1], [3 / 5, 1]],
                   [[3 / 5, 1], [4 / 5, 1]], [[4 / 5, 1], [1, 1]]],
          cells = [0, 1, 2, 3, 4],
          shared_v = [[[1 / 5, 1]], [[2 / 5, 1]], [[3 / 5, 1]], [[4 / 5, 1]]],
          shared_v_idx = [(0, 1), (1, 2), (2, 3), (3, 4)],
          L = \<lparr>ncols = 10,
                rows = [[1 / 5, 1, - (1 / 5), - 1, 0, 0, 0, 0, 0, 0],
                        [0, 0, 2 / 5, 1, - (2 / 5), - 1, 0, 0, 0, 0],
                        [0, 0, 0, 0, 3 / 5, 1, - (3 / 5), - 1, 0, 0],
                        [0, 0, 0, 0, 0, 0, 4 / 5, 1, - (4 / 5), - 1]]
                     @ [[0, 1, 0, 0, 0, 0, 0, 0, 0, 0],
                        [0, 0, 0, 0, 0, 0, 0, 0, 1, 1]]
                     @ [[1, 0, 0, 0, 0, 0, 0, 0, 0, 0],
                        [0, 0, 1, 0, 0, 0, 0, 0, 0, 0],
                        [0, 0, 0, 0, 1, 0, 0, 0, 0, 0],
                        [0, 0, 0, 0, 0, 0, 1, 0, 0, 0],
                        [0, 0, 0, 0, 0, 0, 0, 0, 1, 0]]\<rparr>\<rparr>
   \<and> create_continuity_constrains1 5
       [[[0, 1], [1 / 5, 1]], [[1 / 5, 1], [2 / 5, 1]], [[2 / 5, 1], [3 / 5, 1]],
        [[3 / 5, 1], [4 / 5, 1]], [[4 / 5, 1], [1, 1]]]
       ([[[1 / 5, 1]], [[2 / 5, 1]], [[3 / 5, 1]], [[4 / 5, 1]]],
        [(0, 1), (1, 2), (2, 3), (3, 4)]) =
     Inr \<lparr>ncols = 10,
          rows = [[1 / 5, 1, - (1 / 5), - 1, 0, 0, 0, 0, 0, 0],
                  [0, 0, 2 / 5, 1, - (2 / 5), - 1, 0, 0, 0, 0],
                  [0, 0, 0, 0, 3 / 5, 1, - (3 / 5), - 1, 0, 0],
                  [0, 0, 0, 0, 0, 0, 4 / 5, 1, - (4 / 5), - 1]]\<rparr>
   \<and> create_zero_boundary_constrains1 5 [0] [1]
       [[[0, 1], [1 / 5, 1]], [[1 / 5, 1], [2 / 5, 1]], [[2 / 5, 1], [3 / 5, 1]],
        [[3 / 5, 1], [4 / 5, 1]], [[4 / 5, 1], [1, 1]]] =
     Inr \<lparr>ncols = 10,
          rows = [[0, 1, 0, 0, 0, 0, 0, 0, 0, 0],
                  [0, 0, 0, 0, 0, 0, 0, 0, 1, 1]]\<rparr>
   \<and> create_zero_trace_constrains 5 2 1 =
     Inr \<lparr>ncols = 10,
          rows = [[1, 0, 0, 0, 0, 0, 0, 0, 0, 0],
                  [0, 0, 1, 0, 0, 0, 0, 0, 0, 0],
                  [0, 0, 0, 0, 1, 0, 0, 0, 0, 0],
                  [0, 0, 0, 0, 0, 0, 1, 0, 0, 0],
                  [0, 0, 0, 0, 0, 0, 0, 0, 1, 0]]\<rparr>"
  by code_simp

section \<open>The 3D grid and its boundary rows\<close>

text \<open>
  C7. The claim has the \<open>z\<close> breakpoints of the 3D grid come from \<open>nc[2]\<close>,
  \<open>domain_min[2]\<close> and \<open>domain_max[2]\<close>. \<open>find_verts\<close> takes them from index 1: a grid
  whose domain is \<open>[0, 2]\<close> on the \<open>z\<close> axis gets the vertices of the unit cube, and a grid
  with more cells along \<open>z\<close> than along \<open>y\<close> reads past the end of \<open>Vz\<close>.
\<close>

theorem find_verts3_z_axis_from_y_axis:
  "find_verts3 [1, 1, 1] [0, 0, 0] [1, 1, 2] =
     Inr ([[[1 / 2, 1 / 2, 1 / 2, 1], [0, 0, 0, 1], [0, 0, 1, 1], [0, 1, 0, 1], [0, 1, 1, 1]],
           [[1 / 2, 1 / 2, 1 / 2, 1], [0, 0, 0, 1], [0, 0, 1, 1], [1, 0, 0, 1], [1, 0, 1, 1]],
           [[1 / 2, 1 / 2, 1 / 2, 1], [0, 0, 0, 1], [0, 1, 0, 1], [1, 0, 0, 1], [1, 0, 1, 1]],
           [[1 / 2, 1 / 2, 1 / 2, 1], [1, 0, 0, 1], [1, 0, 1, 1], [1, 1, 0, 1], [1, 1, 1, 1]],
           [[1 / 2, 1 / 2, 1 / 2, 1], [0, 1, 0, 1], [0, 1, 1, 1], [1, 1, 0, 1], [1, 1, 1, 1]],
           [[1 / 2, 1 / 2, 1 / 2, 1], [0, 0, 1, 1], [0, 1, 1, 1], [1, 0, 1, 1], [1, 1, 1, 1]]],
          [(0, 0, 0, 0), (0, 0, 0, 1), (0, 0, 0, 2), (0, 0, 0, 3), (0, 0, 0, 4), (0, 0, 0, 5)])
   \<and> find_verts3 [1, 1, 1] [0, 0, 0] [1, 1, 2] = find_verts3 [1, 1, 1] [0, 0, 0] [1, 1, 1]
   \<and> find_verts3 [1, 1, 2] [0, 0, 0] [1, 1, 1] = Inl IndexError"
  by code_simp

text \<open>
  C10. The claim has the 3D zero-boundary block always hold
  \<open>2 * ((nx+1) * (ny+1) + (nx+1) * (nz+1) + (ny+1) * (nz+1))\<close> rows. The builder allocates
  that many rows, but its first assignment writes the six numbers \<open>vrt + [0, 0, 1]\<close> into
  the twelve columns of a cell, which numpy refuses: for \<open>nc = [2, 2, 2]\<close> no block is
  returned, whatever the vertex table.
\<close>

theorem create_zero_boundary_constrains3_raises:
  "create_zero_boundary_constrains3 [2, 2, 2] 48 vs = Inl ValueError"
  by code_simp

section \<open>Continuity rows\<close>



section \<open>Errors of construction\<close>






section \<open>Interior adjacency\<close>



section \<open>Virtual boundary adjacency\<close>



section \<open>Zero-boundary rows in 2D\<close>

text \<open>
  C6. The claim puts the row of a vertex touching the boundary on axis \<open>a\<close> in columns
  \<open>[6c + 3a, 6c + 3a + 3)\<close> of simplex \<open>c\<close>. The 2D builder does the opposite: a vertex
  with \<open>x\<close> on the boundary (axis 0) is written as \<open>[0, 0, 0] + v\<close>, columns
  \<open>[6c + 3, 6c + 6)\<close>, and a vertex with \<open>y\<close> on the boundary (axis 1) as \<open>v + [0, 0, 0]\<close>,
  columns \<open>[6c, 6c + 3)\<close>. On the grid \<open>[2, 1]\<close> over the unit square, simplex 0 is
  \<open>(1/4, 1/2), (0, 0), (1/2, 0)\<close>: the corner \<open>(0, 0)\<close> gives its \<open>x\<close> row in columns 3 to 5
  and its \<open>y\<close> row in columns 0 to 2, and \<open>(1/2, 0)\<close>, which touches only \<open>y = 0\<close>, gives a
  row in columns 0 to 2.
\<close>

theorem zero_boundary_rows2_axis_blocks:
  "ebind (find_verts2 [2, 1] [0, 0] [1, 1]) (\<lambda>(vs, cs).
     ebind (create_zero_boundary_constrains2 8 [0, 0] [1, 1] vs) (\<lambda>A.
       Inr (vs ! 0, ncols A, take 3 (rows A)))) =
   Inr ([[1 / 4, 1 / 2, 1], [0, 0, 1], [1 / 2, 0, 1]], 48,
        [[0, 0, 0, 0, 0, 1] @ replicate 42 0,
         [0, 0, 1, 0, 0, 0] @ replicate 42 0,
         [1 / 2, 0, 1, 0, 0, 0] @ replicate 42 0])"
  by code_simp

section \<open>The constraint matrix of a 3D grid\<close>

text \<open>
  C4. The claim gives the constraint matrix of a 3D grid \<open>12 * nC\<close> columns. No 3D grid
  gets a constraint matrix. For positive cell counts and a domain that is not degenerate on
  the \<open>x\<close> and \<open>y\<close> axes, \<open>Tesselation3D\<close> raises: \<open>IndexError\<close> from \<open>find_verts\<close> when
  \<open>nc[1] < nc[2]\<close>; otherwise \<open>NotImplementedError\<close> from \<open>find_verts_outside\<close> when
  \<open>zero_boundary=False\<close>; otherwise, the grid, the adjacency and the continuity block being
  built, \<open>create_zero_boundary_constrains\<close> raises \<open>ZeroDivisionError\<close> when \<open>nc[2] = 1\<close> and
  \<open>ValueError\<close> when not.
\<close>

theorem tesselation3D_raises:
  assumes "0 < n0" "0 < n1" "0 < n2" "a0 \<noteq> b0" "a1 \<noteq> b1"
  shows "Tesselation3D [n0, n1, n2] [a0, a1, a2] [b0, b1, b2] zb vp =
         Inl (if n1 < n2 then IndexError
              else if \<not> zb then NotImplementedError
              else if n2 = 1 then ZeroDivisionError else ValueError)"
  using assms by (rule tesselation3D_error)

text \<open>The theorem at the grid \<open>[2, 2, 2]\<close> on the unit cube, with both options on.\<close>

theorem tesselation3D_raises_witness:
  "Tesselation3D [2, 2, 2] [0, 0, 0] [1, 1, 1] True True = Inl ValueError"
  using tesselation3D_raises [of 2 2 2 0 1 0 1 0 1 True True] by simp


end
